theory Spec2Isabelle
  imports Main "HOL-Library.Word" "HOL-Library.Monad_Syntax"
begin

unbundle bit_operations_syntax

section \<open>Data model (dns/types.go)\<close>

text \<open>
  Wire data is a list of bytes. Go strings are byte sequences too; names are kept as
  \<open>string\<close> (a list of 8-bit characters) and the conversions \<open>string(bytes)\<close> and
  \<open>[]byte(s)\<close> of the source are written out. Case mapping and white space are modelled
  on ASCII, where Go's Unicode-aware functions agree with the byte-wise ones.
\<close>

type_synonym byte = "8 word"
type_synonym uint16 = "16 word"
type_synonym uint32 = "32 word"

definition string_of_bytes :: "byte list \<Rightarrow> string" where
  "string_of_bytes bs = map (\<lambda>b. char_of (unat b)) bs"

definition bytes_of_string :: "string \<Rightarrow> byte list" where
  "bytes_of_string s = map (\<lambda>c. of_char c) s"

definition TypeA :: uint16 where "TypeA = 1"
definition TypeNS :: uint16 where "TypeNS = 2"
definition TypeCNAME :: uint16 where "TypeCNAME = 5"
definition TypeSOA :: uint16 where "TypeSOA = 6"
definition TypeMX :: uint16 where "TypeMX = 15"
definition TypeTXT :: uint16 where "TypeTXT = 16"
definition TypeAAAA :: uint16 where "TypeAAAA = 28"

definition ClassIN :: uint16 where "ClassIN = 1"

definition RcodeNoError :: byte where "RcodeNoError = 0"
definition RcodeFormatError :: byte where "RcodeFormatError = 1"
definition RcodeServerFailure :: byte where "RcodeServerFailure = 2"
definition RcodeNameError :: byte where "RcodeNameError = 3"
definition RcodeNotImplemented :: byte where "RcodeNotImplemented = 4"
definition RcodeRefused :: byte where "RcodeRefused = 5"

definition FlagQR :: uint16 where "FlagQR = push_bit 15 1"
definition FlagAA :: uint16 where "FlagAA = push_bit 10 1"
definition FlagTC :: uint16 where "FlagTC = push_bit 9 1"
definition FlagRD :: uint16 where "FlagRD = push_bit 8 1"
definition FlagRA :: uint16 where "FlagRA = push_bit 7 1"

lemmas Type_defs = TypeA_def TypeNS_def TypeCNAME_def TypeSOA_def TypeMX_def TypeTXT_def
  TypeAAAA_def

lemmas Flag_defs = FlagQR_def FlagAA_def FlagTC_def FlagRD_def FlagRA_def

record Header =
  ID :: uint16
  Flags :: uint16
  QDCount :: uint16
  ANCount :: uint16
  NSCount :: uint16
  ARCount :: uint16

record Question =
  QName :: string
  QType :: uint16
  QClass :: uint16

record SOA =
  MName :: string
  RName :: string
  Serial :: uint32
  Refresh :: uint32
  Retry :: uint32
  Expire :: uint32
  Minimum :: uint32

text \<open>
  \<open>net.IP\<close> is a byte slice and \<open>nil\<close> is the empty list; the nil pointer \<open>*SOA\<close> is
  \<open>None\<close>. The fields of \<open>Question\<close> carry a \<open>Q\<close> since a field name belongs to one
  record only.
\<close>

record ResourceRecord =
  Name :: string
  Type :: uint16
  Class :: uint16
  TTL :: uint32
  RDLength :: uint16
  RData :: "byte list"
  Address :: "byte list"
  Target :: string
  Priority :: uint16
  Text :: "string list"
  SOAData :: "SOA option"

record Message =
  Header :: Header
  Questions :: "Question list"
  Answers :: "ResourceRecord list"
  Authority :: "ResourceRecord list"
  Additional :: "ResourceRecord list"

text \<open>The zero value \<open>ResourceRecord{}\<close>.\<close>

definition zeroRR :: ResourceRecord where
  "zeroRR = \<lparr>Name = [], Type = 0, Class = 0, TTL = 0, RDLength = 0, RData = [],
     Address = [], Target = [], Priority = 0, Text = [], SOAData = None\<rparr>"

section \<open>Library functions of Go used by the code\<close>

text \<open>\<open>data[a:b]\<close>, used only where the source has checked \<open>b \<le> len(data)\<close>.\<close>

definition slice :: "'a list \<Rightarrow> nat \<Rightarrow> nat \<Rightarrow> 'a list" where
  "slice xs a b = take (b - a) (drop a xs)"

text \<open>\<open>binary.BigEndian\<close>.\<close>

definition Uint16 :: "byte list \<Rightarrow> uint16" where
  "Uint16 b = push_bit 8 (ucast (b ! 0)) OR ucast (b ! 1)"

definition Uint32 :: "byte list \<Rightarrow> uint32" where
  "Uint32 b = push_bit 24 (ucast (b ! 0)) OR push_bit 16 (ucast (b ! 1)) OR
     push_bit 8 (ucast (b ! 2)) OR ucast (b ! 3)"

definition PutUint16 :: "uint16 \<Rightarrow> byte list" where
  "PutUint16 v = [ucast (drop_bit 8 v), ucast v]"

definition PutUint32 :: "uint32 \<Rightarrow> byte list" where
  "PutUint32 v = [ucast (drop_bit 24 v), ucast (drop_bit 16 v), ucast (drop_bit 8 v), ucast v]"

text \<open>\<open>strings.Join\<close>, \<open>strings.Split\<close> on a one-character separator, and the affix tests.\<close>

fun Join :: "string list \<Rightarrow> string \<Rightarrow> string" where
  "Join [] sep = []"
| "Join [x] sep = x"
| "Join (x # y # ys) sep = x @ sep @ Join (y # ys) sep"

fun Split :: "string \<Rightarrow> char \<Rightarrow> string list" where
  "Split [] sep = [[]]"
| "Split (c # cs) sep =
     (if c = sep then [] # Split cs sep
      else (let r = Split cs sep in (c # hd r) # tl r))"


definition HasSuffix :: "string \<Rightarrow> string \<Rightarrow> bool" where
  "HasSuffix s p \<longleftrightarrow> length p \<le> length s \<and> drop (length s - length p) s = p"


definition TrimSuffix :: "string \<Rightarrow> string \<Rightarrow> string" where
  "TrimSuffix s p = (if HasSuffix s p then take (length s - length p) s else s)"

definition lower_char :: "char \<Rightarrow> char" where
  "lower_char c = (let n = of_char c :: nat in if 65 \<le> n \<and> n \<le> 90 then char_of (n + 32) else c)"


definition ToLower :: "string \<Rightarrow> string" where
  "ToLower s = map lower_char s"


section \<open>Parser (dns/parser.go)\<close>

text \<open>One constructor for each \<open>fmt.Errorf\<close> of the parser.\<close>

datatype parse_error =
    HeaderTooShort
  | QuestionTooShort
  | ResourceRecordTooShort
  | RDataTooShort
  | NameExtendsPastData
  | InvalidCompressionPointer
  | CompressionLoopDetected
  | LabelExtendsPastData

text \<open>The wrapping \<open>fmt.Errorf("question %d: %w", i, err)\<close> of \<open>Parse\<close>.\<close>

datatype error =
    InHeader parse_error
  | InQuestion nat parse_error
  | InAnswer nat parse_error
  | InAuthority nat parse_error
  | InAdditional nat parse_error

definition parseHeader :: "byte list \<Rightarrow> parse_error + Header \<times> nat" where
  "parseHeader data =
     (if length data < 12 then Inl HeaderTooShort
      else Inr (\<lparr>ID = Uint16 (slice data 0 2),
                 Flags = Uint16 (slice data 2 4),
                 QDCount = Uint16 (slice data 4 6),
                 ANCount = Uint16 (slice data 6 8),
                 NSCount = Uint16 (slice data 8 10),
                 ARCount = Uint16 (slice data 10 12)\<rparr>, 12))"

text \<open>
  \<open>parseName\<close> is a loop over the labels that calls itself at a compression pointer. The
  loop state is the label list, the \<open>visited\<close> map and the cursor. Each call of the source
  starts with \<open>labels = nil\<close> and a fresh \<open>visited\<close> map, so the recursive call is the loop
  started with both empty. The pointer branch returns in every case, hence the entry
  \<open>visited[offset] = true\<close> it makes is never read and is left out. The result is the name
  and the cursor after it; \<open>None\<close> is a call that does not return.
\<close>

partial_function (option) parseName_loop ::
  "byte list \<Rightarrow> string list \<Rightarrow> nat list \<Rightarrow> nat \<Rightarrow> (parse_error + string \<times> nat) option" where
  "parseName_loop data labels visited pos =
    (if pos \<ge> length data then Some (Inl NameExtendsPastData)
     else let len = data ! pos in
       if len AND 0xC0 = 0xC0 then
         (if pos + 1 \<ge> length data then Some (Inl InvalidCompressionPointer)
          else let offset = unat (Uint16 (slice data pos (pos + 2)) AND 0x3FFF) in
            if offset \<in> set visited then Some (Inl CompressionLoopDetected)
            else Option.bind (parseName_loop data [] [] offset) (\<lambda>r.
              case r of
                Inl err \<Rightarrow> Some (Inl err)
              | Inr (rest, _) \<Rightarrow>
                  Some (Inr (if length labels > 0 then Join labels ''.'' @ ''.'' @ rest else rest,
                             pos + 2))))
       else if len = 0 then Some (Inr (Join labels ''.'', pos + 1))
       else if pos + 1 + unat len > length data then Some (Inl LabelExtendsPastData)
       else parseName_loop data
              (labels @ [string_of_bytes (slice data (pos + 1) (pos + 1 + unat len))]) visited
              (pos + 1 + unat len))"

declare parseName_loop.simps [code]

definition parseName :: "byte list \<Rightarrow> nat \<Rightarrow> (parse_error + string \<times> nat) option" where
  "parseName data pos = parseName_loop data [] [] pos"

function parseTXT_loop :: "byte list \<Rightarrow> string list \<Rightarrow> nat \<Rightarrow> string list" where
  "parseTXT_loop data texts pos =
     (if pos < length data then
        (let len = unat (data ! pos); pos1 = pos + 1 in
         if pos1 + len > length data then texts
         else parseTXT_loop data (texts @ [string_of_bytes (slice data pos1 (pos1 + len))])
                (pos1 + len))
      else texts)"
  by pat_completeness auto
termination
  by (relation "measure (\<lambda>(data, texts, pos). length data - pos)") auto

declare parseTXT_loop.simps [simp del]

definition parseTXT :: "byte list \<Rightarrow> string list" where
  "parseTXT data = parseTXT_loop data [] 0"

definition parseQuestion :: "byte list \<Rightarrow> nat \<Rightarrow> (parse_error + Question \<times> nat) option" where
  "parseQuestion data pos =
     Option.bind (parseName data pos) (\<lambda>r.
       case r of
         Inl err \<Rightarrow> Some (Inl err)
       | Inr (name, pos1) \<Rightarrow>
           if pos1 + 4 > length data then Some (Inl QuestionTooShort)
           else Some (Inr (\<lparr>QName = name,
                             QType = Uint16 (slice data pos1 (pos1 + 2)),
                             QClass = Uint16 (slice data (pos1 + 2) (pos1 + 4))\<rparr>, pos1 + 4)))"

text \<open>
  \<open>rr.Target, _ = p.parseName()\<close> drops the error: the target is then the empty string
  that \<open>parseName\<close> returns beside it. The cursor is restored afterwards.
\<close>

definition parseTarget :: "byte list \<Rightarrow> nat \<Rightarrow> string option" where
  "parseTarget data pos =
     Option.bind (parseName data pos) (\<lambda>r.
       case r of Inl err \<Rightarrow> Some [] | Inr (name, _) \<Rightarrow> Some name)"

text \<open>
  The \<open>switch rr.Type\<close> of \<open>parseResourceRecord\<close>, at the cursor \<open>pos\<close> where the
  record data starts. The cursor is restored after a target is read, so only the record
  is returned.
\<close>

definition parseRData :: "byte list \<Rightarrow> nat \<Rightarrow> ResourceRecord \<Rightarrow> ResourceRecord option" where
  "parseRData data pos rr =
     (if Type rr = TypeA then
        Some (if RDLength rr = 4 then rr\<lparr>Address := RData rr\<rparr> else rr)
      else if Type rr = TypeAAAA then
        Some (if RDLength rr = 16 then rr\<lparr>Address := RData rr\<rparr> else rr)
      else if Type rr = TypeCNAME \<or> Type rr = TypeNS then
        Option.bind (parseTarget data pos) (\<lambda>t. Some (rr\<lparr>Target := t\<rparr>))
      else if Type rr = TypeMX then
        (if RDLength rr \<ge> 2 then
           Option.bind (parseTarget data (pos + 2)) (\<lambda>t.
             Some (rr\<lparr>Priority := Uint16 (slice (RData rr) 0 2), Target := t\<rparr>))
         else Some rr)
      else if Type rr = TypeTXT then
        Some (rr\<lparr>Text := parseTXT (RData rr)\<rparr>)
      else Some rr)"

definition parseResourceRecord ::
  "byte list \<Rightarrow> nat \<Rightarrow> (parse_error + ResourceRecord \<times> nat) option" where
  "parseResourceRecord data pos =
     Option.bind (parseName data pos) (\<lambda>r.
       case r of
         Inl err \<Rightarrow> Some (Inl err)
       | Inr (name, pos1) \<Rightarrow>
           if pos1 + 10 > length data then Some (Inl ResourceRecordTooShort)
           else
             let rr = zeroRR\<lparr>Name := name,
                        Type := Uint16 (slice data pos1 (pos1 + 2)),
                        Class := Uint16 (slice data (pos1 + 2) (pos1 + 4)),
                        TTL := Uint32 (slice data (pos1 + 4) (pos1 + 8)),
                        RDLength := Uint16 (slice data (pos1 + 8) (pos1 + 10))\<rparr>;
                 pos2 = pos1 + 10
             in
             if pos2 + unat (RDLength rr) > length data then Some (Inl RDataTooShort)
             else
               let rr = rr\<lparr>RData := slice data pos2 (pos2 + unat (RDLength rr))\<rparr>
               in Option.bind (parseRData data pos2 rr) (\<lambda>rr'.
                    Some (Inr (rr', pos2 + unat (RDLength rr)))))"

text \<open>
  The four loops of \<open>Parse\<close>: \<open>n\<close> entries remain, \<open>i\<close> is the index of the next one.
\<close>

fun parseQuestions ::
  "byte list \<Rightarrow> nat \<Rightarrow> nat \<Rightarrow> nat \<Rightarrow> (nat \<times> parse_error + Question list \<times> nat) option" where
  "parseQuestions data 0 i pos = Some (Inr ([], pos))"
| "parseQuestions data (Suc n) i pos =
     Option.bind (parseQuestion data pos) (\<lambda>r.
       case r of
         Inl err \<Rightarrow> Some (Inl (i, err))
       | Inr (q, pos1) \<Rightarrow>
           Option.bind (parseQuestions data n (i + 1) pos1) (\<lambda>r1.
             case r1 of
               Inl e \<Rightarrow> Some (Inl e)
             | Inr (qs, pos2) \<Rightarrow> Some (Inr (q # qs, pos2))))"

fun parseRecords ::
  "byte list \<Rightarrow> nat \<Rightarrow> nat \<Rightarrow> nat \<Rightarrow> (nat \<times> parse_error + ResourceRecord list \<times> nat) option"
  where
  "parseRecords data 0 i pos = Some (Inr ([], pos))"
| "parseRecords data (Suc n) i pos =
     Option.bind (parseResourceRecord data pos) (\<lambda>r.
       case r of
         Inl err \<Rightarrow> Some (Inl (i, err))
       | Inr (rr, pos1) \<Rightarrow>
           Option.bind (parseRecords data n (i + 1) pos1) (\<lambda>r1.
             case r1 of
               Inl e \<Rightarrow> Some (Inl e)
             | Inr (rrs, pos2) \<Rightarrow> Some (Inr (rr # rrs, pos2))))"

definition Parse :: "byte list \<Rightarrow> (error + Message) option" where
  "Parse data =
     (case parseHeader data of
        Inl err \<Rightarrow> Some (Inl (InHeader err))
      | Inr (h, pos0) \<Rightarrow>
          Option.bind (parseQuestions data (unat (QDCount h)) 0 pos0) (\<lambda>r1.
            case r1 of
              Inl (i, err) \<Rightarrow> Some (Inl (InQuestion i err))
            | Inr (qs, pos1) \<Rightarrow>
          Option.bind (parseRecords data (unat (ANCount h)) 0 pos1) (\<lambda>r2.
            case r2 of
              Inl (i, err) \<Rightarrow> Some (Inl (InAnswer i err))
            | Inr (an, pos2) \<Rightarrow>
          Option.bind (parseRecords data (unat (NSCount h)) 0 pos2) (\<lambda>r3.
            case r3 of
              Inl (i, err) \<Rightarrow> Some (Inl (InAuthority i err))
            | Inr (ns, pos3) \<Rightarrow>
          Option.bind (parseRecords data (unat (ARCount h)) 0 pos3) (\<lambda>r4.
            case r4 of
              Inl (i, err) \<Rightarrow> Some (Inl (InAdditional i err))
            | Inr (ar, pos4) \<Rightarrow>
                Some (Inr \<lparr>Header = h, Questions = qs, Answers = an, Authority = ns,
                           Additional = ar\<rparr>))))))"

section \<open>Builder (dns/builder.go)\<close>

text \<open>
  The builder owns one buffer, the field \<open>data\<close> of the source (here \<open>bdata\<close>, since
  \<open>data\<close> names the input buffer of the parser throughout). Every write appends to it
  and returns the builder; \<open>b.data = b.data[:0]\<close> empties it.
\<close>

record Builder =
  bdata :: "byte list"

definition NewBuilder :: Builder where
  "NewBuilder = \<lparr>bdata = []\<rparr>"

definition writeUint16 :: "Builder \<Rightarrow> uint16 \<Rightarrow> Builder" where
  "writeUint16 b v = b\<lparr>bdata := bdata b @ PutUint16 v\<rparr>"

definition writeUint32 :: "Builder \<Rightarrow> uint32 \<Rightarrow> Builder" where
  "writeUint32 b v = b\<lparr>bdata := bdata b @ PutUint32 v\<rparr>"

definition encodeLabel :: "string \<Rightarrow> byte list" where
  "encodeLabel label =
     (let label = (if length label > 63 then take 63 label else label)
      in of_nat (length label) # bytes_of_string label)"

definition encodeName :: "string \<Rightarrow> byte list" where
  "encodeName name =
     (if name = [] \<or> name = ''.'' then [0]
      else
        let name = TrimSuffix name ''.'';
            labels = Split name (CHR ''.'')
        in fold (\<lambda>label result. result @ encodeLabel label) labels [] @ [0])"

definition encodeText :: "string \<Rightarrow> byte list" where
  "encodeText text =
     (let text = (if length text > 255 then take 255 text else text)
      in of_nat (length text) # bytes_of_string text)"

definition encodeTXT :: "string list \<Rightarrow> byte list" where
  "encodeTXT texts = fold (\<lambda>text result. result @ encodeText text) texts []"

definition encodeSOA :: "SOA \<Rightarrow> byte list" where
  "encodeSOA soa =
     encodeName (MName soa) @ encodeName (RName soa) @
     (PutUint32 (Serial soa) @ PutUint32 (Refresh soa) @ PutUint32 (Retry soa) @
      PutUint32 (Expire soa) @ PutUint32 (Minimum soa))"

text \<open>
  \<open>net.IP.To4\<close> and \<open>net.IP.To16\<close> of the Go library: a 4-byte address, or a 16-byte one
  with the prefix of an IPv4-mapped address, has a 4-byte form; every 4-byte or 16-byte
  address has a 16-byte form; anything else gives \<open>nil\<close>.
\<close>

definition v4InV6Prefix :: "byte list" where
  "v4InV6Prefix = [0, 0, 0, 0, 0, 0, 0, 0, 0, 0, 0xff, 0xff]"

definition To4 :: "byte list \<Rightarrow> byte list" where
  "To4 ip =
     (if length ip = 4 then ip
      else if length ip = 16 \<and> take 12 ip = v4InV6Prefix then drop 12 ip
      else [])"

definition To16 :: "byte list \<Rightarrow> byte list" where
  "To16 ip =
     (if length ip = 4 then v4InV6Prefix @ ip
      else if length ip = 16 then ip
      else [])"

text \<open>\<open>net.IP.Equal\<close>: an IPv4 address and its 16-byte form are equal.\<close>

definition IPEqual :: "byte list \<Rightarrow> byte list \<Rightarrow> bool" where
  "IPEqual ip x \<longleftrightarrow>
     (if length ip = length x then ip = x
      else if length ip = 4 \<and> length x = 16 then take 12 x = v4InV6Prefix \<and> ip = drop 12 x
      else if length ip = 16 \<and> length x = 4 then take 12 ip = v4InV6Prefix \<and> drop 12 ip = x
      else False)"

definition buildRData :: "ResourceRecord \<Rightarrow> byte list" where
  "buildRData rr =
     (if Type rr = TypeA then To4 (Address rr)
      else if Type rr = TypeAAAA then To16 (Address rr)
      else if Type rr = TypeCNAME \<or> Type rr = TypeNS then encodeName (Target rr)
      else if Type rr = TypeMX then PutUint16 (Priority rr) @ encodeName (Target rr)
      else if Type rr = TypeTXT then encodeTXT (Text rr)
      else if Type rr = TypeSOA then
        (case SOAData rr of Some soa \<Rightarrow> encodeSOA soa | None \<Rightarrow> RData rr)
      else RData rr)"

definition writeName :: "Builder \<Rightarrow> string \<Rightarrow> Builder" where
  "writeName b name = b\<lparr>bdata := bdata b @ encodeName name\<rparr>"

definition writeHeader :: "Builder \<Rightarrow> Header \<Rightarrow> Builder" where
  "writeHeader b h =
     (let b = writeUint16 b (ID h);
          b = writeUint16 b (Flags h);
          b = writeUint16 b (QDCount h);
          b = writeUint16 b (ANCount h);
          b = writeUint16 b (NSCount h)
      in writeUint16 b (ARCount h))"

definition writeQuestion :: "Builder \<Rightarrow> Question \<Rightarrow> Builder" where
  "writeQuestion b q =
     (let b = writeName b (QName q);
          b = writeUint16 b (QType q)
      in writeUint16 b (QClass q))"

definition writeResourceRecord :: "Builder \<Rightarrow> ResourceRecord \<Rightarrow> Builder" where
  "writeResourceRecord b rr =
     (let b = writeName b (Name rr);
          b = writeUint16 b (Type rr);
          b = writeUint16 b (Class rr);
          b = writeUint32 b (TTL rr);
          rdata = buildRData rr;
          b = writeUint16 b (of_nat (length rdata))
      in b\<lparr>bdata := bdata b @ rdata\<rparr>)"

text \<open>The result is the returned slice and the builder as the call leaves it.\<close>

definition BuildResponse ::
  "Builder \<Rightarrow> Message \<Rightarrow> ResourceRecord list \<Rightarrow> ResourceRecord list \<Rightarrow> byte list \<times> Builder"
  where
  "BuildResponse b query answers authority =
     (let b = b\<lparr>bdata := []\<rparr>;
          header = \<lparr>ID = ID (Header query),
                    Flags = FlagQR OR FlagAA,
                    QDCount = of_nat (length (Questions query)),
                    ANCount = of_nat (length answers),
                    NSCount = of_nat (length authority),
                    ARCount = 0\<rparr>;
          header = (if Flags (Header query) AND FlagRD \<noteq> 0
                    then header\<lparr>Flags := Flags header OR FlagRD\<rparr> else header);
          b = writeHeader b header;
          b = fold (\<lambda>q b. writeQuestion b q) (Questions query) b;
          b = fold (\<lambda>rr b. writeResourceRecord b rr) answers b;
          b = fold (\<lambda>rr b. writeResourceRecord b rr) authority b
      in (bdata b, b))"

definition BuildErrorResponse :: "Builder \<Rightarrow> Message \<Rightarrow> byte \<Rightarrow> byte list \<times> Builder" where
  "BuildErrorResponse b query rcode =
     (let b = b\<lparr>bdata := []\<rparr>;
          header = \<lparr>ID = ID (Header query),
                    Flags = FlagQR OR FlagAA OR ucast rcode,
                    QDCount = of_nat (length (Questions query)),
                    ANCount = 0,
                    NSCount = 0,
                    ARCount = 0\<rparr>;
          b = writeHeader b header;
          b = fold (\<lambda>q b. writeQuestion b q) (Questions query) b
      in (bdata b, b))"

section \<open>Zone store (dns/zone.go)\<close>








section \<open>Zone selection (cmd/dns-server/main.go)\<close>






section \<open>Zone-file loader (dns/zone.go)\<close>




























section \<open>Notions used in the statements\<close>

text \<open>A compression pointer at an offset, and the offset it refers to.\<close>

definition is_pointer :: "byte list \<Rightarrow> nat \<Rightarrow> bool" where
  "is_pointer data pos \<longleftrightarrow> pos + 1 < length data \<and> (data ! pos) AND 0xC0 = 0xC0"

definition pointer_offset :: "byte list \<Rightarrow> nat \<Rightarrow> nat" where
  "pointer_offset data pos = unat (Uint16 (slice data pos (pos + 2)) AND 0x3FFF)"

text \<open>A list of offsets, each holding a pointer to an offset of the list.\<close>

definition pointer_closed :: "byte list \<Rightarrow> nat list \<Rightarrow> bool" where
  "pointer_closed data S \<longleftrightarrow>
     list_all (\<lambda>p. is_pointer data p \<and> pointer_offset data p \<in> set S) S"




definition records_at :: "ResourceRecord list \<Rightarrow> string \<Rightarrow> uint16 \<Rightarrow> ResourceRecord list" where
  "records_at rrs N t = filter (\<lambda>r. ToLower (Name r) = ToLower N \<and> Type r = t) rrs"




text \<open>
  Names that survive the wire: every label has between 1 and 63 bytes (so the name is not
  empty and has no trailing dot).
\<close>

definition wf_label :: "string \<Rightarrow> bool" where
  "wf_label l \<longleftrightarrow> 1 \<le> length l \<and> length l \<le> 63"

definition wf_name :: "string \<Rightarrow> bool" where
  "wf_name name \<longleftrightarrow> list_all wf_label (Split name (CHR ''.''))"

text \<open>
  The bytes the builder writes for a header, a question and a record, and the header of
  a response to \<open>query\<close> with \<open>an\<close> answers and \<open>ns\<close> authority records.
\<close>

definition wireHeader :: "Header \<Rightarrow> byte list" where
  "wireHeader h = PutUint16 (ID h) @ PutUint16 (Flags h) @ PutUint16 (QDCount h) @
     PutUint16 (ANCount h) @ PutUint16 (NSCount h) @ PutUint16 (ARCount h)"

definition wireQuestion :: "Question \<Rightarrow> byte list" where
  "wireQuestion q = encodeName (QName q) @ PutUint16 (QType q) @ PutUint16 (QClass q)"

definition wireRR :: "ResourceRecord \<Rightarrow> byte list" where
  "wireRR rr = encodeName (Name rr) @ PutUint16 (Type rr) @ PutUint16 (Class rr) @
     PutUint32 (TTL rr) @ PutUint16 (of_nat (length (buildRData rr))) @ buildRData rr"

definition response_header :: "Message \<Rightarrow> nat \<Rightarrow> nat \<Rightarrow> Header" where
  "response_header query an ns =
     \<lparr>ID = ID (Header query),
      Flags = (if Flags (Header query) AND FlagRD \<noteq> 0 then (FlagQR OR FlagAA) OR FlagRD
               else FlagQR OR FlagAA),
      QDCount = of_nat (length (Questions query)),
      ANCount = of_nat an,
      NSCount = of_nat ns,
      ARCount = 0\<rparr>"

text \<open>
  The record that \<open>parseResourceRecord\<close> holds before its \<open>switch\<close>, when it reads what
  the builder wrote for \<open>rr\<close>.
\<close>

definition wire_base :: "ResourceRecord \<Rightarrow> ResourceRecord" where
  "wire_base rr = zeroRR\<lparr>Name := Name rr, Type := Type rr, Class := Class rr, TTL := TTL rr,
     RDLength := of_nat (length (buildRData rr)), RData := buildRData rr\<rparr>"

text \<open>
  The payloads that survive the wire, by record type, and the equality of the payload of
  a record \<open>rr\<close> and of the record \<open>rr'\<close> parsed back. For SOA the parser decodes no
  payload: the record comes back with its record data only.
\<close>

definition wf_payload :: "ResourceRecord \<Rightarrow> bool" where
  "wf_payload rr \<longleftrightarrow>
     (Type rr = TypeA \<and> To4 (Address rr) \<noteq> []) \<or>
     (Type rr = TypeAAAA \<and> To16 (Address rr) \<noteq> []) \<or>
     ((Type rr = TypeCNAME \<or> Type rr = TypeNS \<or> Type rr = TypeMX) \<and> wf_name (Target rr)) \<or>
     (Type rr = TypeTXT \<and> list_all (\<lambda>t. length t \<le> 255) (Text rr)) \<or>
     Type rr = TypeSOA"

definition same_payload :: "ResourceRecord \<Rightarrow> ResourceRecord \<Rightarrow> bool" where
  "same_payload rr rr' \<longleftrightarrow>
     (if Type rr = TypeA \<or> Type rr = TypeAAAA then IPEqual (Address rr') (Address rr)
      else if Type rr = TypeCNAME \<or> Type rr = TypeNS then Target rr' = Target rr
      else if Type rr = TypeMX then Priority rr' = Priority rr \<and> Target rr' = Target rr
      else if Type rr = TypeTXT then Text rr' = Text rr
      else if Type rr = TypeSOA then SOAData rr' = None \<and> RData rr' = buildRData rr
      else False)"

section \<open>Inputs used below\<close>

text \<open>
  A header declaring one question, followed by a compression pointer to its own offset 12;
  and the same header followed by two pointers that refer to each other.
\<close>

definition self_pointer_msg :: "byte list" where
  "self_pointer_msg = [0, 0, 0, 0, 0, 1, 0, 0, 0, 0, 0, 0, 0xC0, 0x0C]"

definition pointer_cycle_msg :: "byte list" where
  "pointer_cycle_msg = [0, 0, 0, 0, 0, 1, 0, 0, 0, 0, 0, 0, 0xC0, 0x0E, 0xC0, 0x0C]"

text \<open>A name whose only label has 64 bytes, and one whose length octet is \<open>10000000\<close>.\<close>

definition long_label_name :: "byte list" where
  "long_label_name = 0x40 # replicate 64 0x61 @ [0]"

definition reserved_bits_name :: "byte list" where
  "reserved_bits_name = 0x80 # replicate 128 0x61 @ [0]"




text \<open>
  The query of the parser tests (\<open>example.com\<close>, A, IN, with RD set) and its parsed
  message; an SOA and an MX record.
\<close>

definition example_query_bytes :: "byte list" where
  "example_query_bytes = [0x12, 0x34, 0x01, 0x00, 0x00, 0x01, 0x00, 0x00, 0x00, 0x00, 0x00, 0x00,
     0x07] @ bytes_of_string ''example'' @ [0x03] @ bytes_of_string ''com'' @
     [0x00, 0x00, 0x01, 0x00, 0x01]"

definition example_query :: Message where
  "example_query =
     \<lparr>Header = \<lparr>ID = 0x1234, Flags = 0x0100, QDCount = 1, ANCount = 0, NSCount = 0,
                  ARCount = 0\<rparr>,
      Questions = [\<lparr>QName = ''example.com'', QType = 1, QClass = 1\<rparr>],
      Answers = [], Authority = [], Additional = []\<rparr>"

definition example_soa :: SOA where
  "example_soa = \<lparr>MName = ''ns1.example.com'', RName = ''admin.example.com'', Serial = 2024,
     Refresh = 3600, Retry = 600, Expire = 86400, Minimum = 300\<rparr>"

definition soa_rr :: ResourceRecord where
  "soa_rr = zeroRR\<lparr>Name := ''example.com'', Type := TypeSOA, Class := ClassIN, TTL := 3600,
     SOAData := Some example_soa\<rparr>"

definition mx_rr :: ResourceRecord where
  "mx_rr = zeroRR\<lparr>Name := ''example.com'', Type := TypeMX, Class := ClassIN, TTL := 3600,
     Priority := 10, Target := ''mail.example.com''\<rparr>"

section \<open>Compression pointers\<close>

text \<open>
  Every call that returns started outside such a list: by induction on the call tree, the
  call at a pointer of the list needs the call at its target, which is in the list again.
\<close>

lemma parseName_loop_cycle_aux:
  assumes "parseName_loop data labels visited pos = Some y"
  shows "\<not> (pointer_closed data S \<and> pos \<in> set S \<and> visited = [])"
proof (rule parseName_loop.raw_induct
    [where P = "\<lambda>data labels visited pos y.
        \<not> (pointer_closed data S \<and> pos \<in> set S \<and> visited = [])",
      OF _ assms], goal_cases)
  case (1 rec data labels visited pos y)
  show ?case
  proof
    assume a: "pointer_closed data S \<and> pos \<in> set S \<and> visited = []"
    then have p: "is_pointer data pos" and o: "pointer_offset data pos \<in> set S"
      by (auto simp: pointer_closed_def list_all_iff)
    from 1(2) a p obtain r where "rec data [] [] (pointer_offset data pos) = Some r"
      by (auto simp: is_pointer_def pointer_offset_def Let_def
          split: if_splits Option.bind_splits)
    from 1(1)[OF this] a o show False by simp
  qed
qed

lemma parseName_pointer_cycle:
  "pointer_closed data S \<Longrightarrow> pos \<in> set S \<Longrightarrow> parseName data pos = None"
  using parseName_loop_cycle_aux [of data "[]" "[]" pos _ S]
  by (cases "parseName data pos") (auto simp: parseName_def)

text \<open>
  The check of \<open>visited\<close> never fires: the map is empty whenever it is read, so no call
  returns the error of the loop detection.
\<close>

lemma parseName_loop_never_detects:
  assumes "parseName_loop data labels visited pos = Some y"
  shows "visited = [] \<longrightarrow> y \<noteq> Inl CompressionLoopDetected"
proof (rule parseName_loop.raw_induct
    [where P = "\<lambda>data labels visited pos y. visited = [] \<longrightarrow> y \<noteq> Inl CompressionLoopDetected",
      OF _ assms], goal_cases)
  case (1 rec data labels visited pos y)
  show ?case
  proof
    assume v: "visited = []"
    show "y \<noteq> Inl CompressionLoopDetected"
    proof
      assume y: "y = Inl CompressionLoopDetected"
      from 1(2) v y consider
        (ptr) "rec data [] [] (unat (Uint16 (slice data pos (pos + 2)) AND 0x3FFF)) =
                 Some (Inl CompressionLoopDetected)"
        | (lbl) l where "rec data l [] (pos + 1 + unat (data ! pos)) =
                 Some (Inl CompressionLoopDetected)"
        by (auto simp: Let_def split: if_splits Option.bind_splits sum.splits prod.splits)
      then show False
      proof cases
        case ptr
        from 1(1)[OF this] show False by simp
      next
        case lbl
        from 1(1)[OF this] show False by simp
      qed
    qed
  qed
qed

lemma parseName_never_detects: "parseName data pos \<noteq> Some (Inl CompressionLoopDetected)"
  using parseName_loop_never_detects [of data "[]" "[]" pos "Inl CompressionLoopDetected"]
  by (auto simp: parseName_def)

lemma self_pointer_closed: "pointer_closed self_pointer_msg [12]"
  by (simp add: pointer_closed_def is_pointer_def pointer_offset_def self_pointer_msg_def
      slice_def Uint16_def)

lemma pointer_cycle_closed: "pointer_closed pointer_cycle_msg [12, 14]"
  by (simp add: pointer_closed_def is_pointer_def pointer_offset_def pointer_cycle_msg_def
      slice_def Uint16_def)

text \<open>
  C1. The claim: on a name with a compression-pointer loop \<open>parseName\<close> terminates and
  returns a failure. The code: on the pointer to itself at offset 12, and on the two
  pointers at 12 and 14 that refer to each other, \<open>parseName\<close> never returns (the
  recursion does not end), since every call starts with a fresh \<open>visited\<close> map.
\<close>

theorem parseName_pointer_loop_never_returns:
  "parseName self_pointer_msg 12 = None \<and> parseName pointer_cycle_msg 12 = None"
  using parseName_pointer_cycle [OF self_pointer_closed, of 12]
    parseName_pointer_cycle [OF pointer_cycle_closed, of 12]
  by simp

text \<open>
  The cursor stays inside the buffer: a name takes one byte at least, a question five
  and a record eleven, so a parse that succeeds had the bytes for the counts of its header.
\<close>

lemma parseName_loop_cursor:
  assumes "parseName_loop data labels visited pos = Some (Inr (name, p))"
  shows "pos < p \<and> p \<le> length data"
proof -
  have "\<forall>name p. y = Inr (name, p) \<longrightarrow> pos < p \<and> p \<le> length data"
    if "parseName_loop data labels visited pos = Some y" for y
  proof (rule parseName_loop.raw_induct
      [where P = "\<lambda>data labels visited pos y.
          \<forall>name p. y = Inr (name, p) \<longrightarrow> pos < p \<and> p \<le> length data",
        OF _ that], goal_cases)
    case (1 rec data labels visited pos y)
    show ?case
    proof (intro allI impI)
      fix name p
      assume y: "y = Inr (name, p)"
      have b: "\<not> length data \<le> pos"
        using 1(2) y by (auto split: if_splits)
      consider
        (ptr) "pos + 1 < length data" "p = pos + 2"
        | (zero) "pos < length data" "p = pos + 1"
        | (lbl) l where "rec data l visited (pos + 1 + unat (data ! pos)) = Some (Inr (name, p))"
      proof (cases "data ! pos AND 0xC0 = 0xC0")
        case True
        with 1(2) y b have "pos + 1 < length data \<and> p = pos + 2"
          by (simp add: Let_def split: if_splits Option.bind_splits sum.splits prod.splits)
        with ptr show ?thesis by simp
      next
        case False
        show ?thesis
        proof (cases "data ! pos = 0")
          case True
          with 1(2) y b False have "p = pos + 1" by (simp add: Let_def)
          with zero b show ?thesis by simp
        next
          case nz: False
          with 1(2) y b False have "rec data
              (labels @ [string_of_bytes (slice data (pos + 1) (pos + 1 + unat (data ! pos)))])
              visited (pos + 1 + unat (data ! pos)) = Some (Inr (name, p))"
            by (simp add: Let_def split: if_splits)
          with lbl show ?thesis by blast
        qed
      qed
      then show "pos < p \<and> p \<le> length data"
      proof cases
        case ptr then show ?thesis by simp
      next
        case zero then show ?thesis by simp
      next
        case lbl
        from 1(1) [OF this] show ?thesis by simp
      qed
    qed
  qed
  from this [OF assms] show ?thesis by simp
qed

lemma parseQuestion_cursor:
  "parseQuestion data pos = Some (Inr (q, p)) \<Longrightarrow> pos + 5 \<le> p \<and> p \<le> length data"
  by (auto simp: parseQuestion_def parseName_def split: Option.bind_splits sum.splits prod.splits if_splits
      dest!: parseName_loop_cursor)

lemma parseResourceRecord_cursor:
  "parseResourceRecord data pos = Some (Inr (rr, p)) \<Longrightarrow> pos + 11 \<le> p \<and> p \<le> length data"
  by (auto simp: parseResourceRecord_def parseName_def Let_def
      split: Option.bind_splits sum.splits prod.splits if_splits
      dest!: parseName_loop_cursor)

lemma parseQuestions_cursor:
  "parseQuestions data n i pos = Some (Inr (qs, p)) \<Longrightarrow> pos \<le> length data \<Longrightarrow>
     pos + 5 * n \<le> p \<and> p \<le> length data"
proof (induction n arbitrary: i pos qs)
  case 0
  then show ?case by simp
next
  case (Suc n)
  from Suc.prems(1) obtain q p1 qs' where
    a: "parseQuestion data pos = Some (Inr (q, p1))"
      "parseQuestions data n (i + 1) p1 = Some (Inr (qs', p))"
    by (auto split: Option.bind_splits sum.splits prod.splits)
  from parseQuestion_cursor [OF a(1)] Suc.IH [OF a(2)] show ?case by simp
qed

lemma parseRecords_cursor:
  "parseRecords data n i pos = Some (Inr (rrs, p)) \<Longrightarrow> pos \<le> length data \<Longrightarrow>
     pos + 11 * n \<le> p \<and> p \<le> length data"
proof (induction n arbitrary: i pos rrs)
  case 0
  then show ?case by simp
next
  case (Suc n)
  from Suc.prems(1) obtain rr p1 rrs' where
    a: "parseResourceRecord data pos = Some (Inr (rr, p1))"
      "parseRecords data n (i + 1) p1 = Some (Inr (rrs', p))"
    by (auto split: Option.bind_splits sum.splits prod.splits)
  from parseResourceRecord_cursor [OF a(1)] Suc.IH [OF a(2)] show ?case by simp
qed

lemma Parse_success_needs_bytes:
  assumes "Parse data = Some (Inr msg)"
  shows "12 + 5 * unat (QDCount (Header msg)) +
     11 * (unat (ANCount (Header msg)) + unat (NSCount (Header msg)) + unat (ARCount (Header msg)))
     \<le> length data"
proof -
  from assms obtain h qs p1 an p2 ns p3 ar p4 where
    h: "parseHeader data = Inr (h, 12)" "Header msg = h"
    and q: "parseQuestions data (unat (QDCount h)) 0 12 = Some (Inr (qs, p1))"
    and a: "parseRecords data (unat (ANCount h)) 0 p1 = Some (Inr (an, p2))"
    and n: "parseRecords data (unat (NSCount h)) 0 p2 = Some (Inr (ns, p3))"
    and r: "parseRecords data (unat (ARCount h)) 0 p3 = Some (Inr (ar, p4))"
    by (auto simp: Parse_def parseHeader_def split: sum.splits prod.splits Option.bind_splits if_splits)
  from h(1) have l: "12 \<le> length data" by (simp add: parseHeader_def split: if_splits)
  from parseQuestions_cursor [OF q l] have 1: "12 + 5 * unat (QDCount h) \<le> p1" "p1 \<le> length data"
    by simp_all
  from parseRecords_cursor [OF a 1(2)] have 2: "p1 + 11 * unat (ANCount h) \<le> p2" "p2 \<le> length data"
    by simp_all
  from parseRecords_cursor [OF n 2(2)] have 3: "p2 + 11 * unat (NSCount h) \<le> p3" "p3 \<le> length data"
    by simp_all
  from parseRecords_cursor [OF r 3(2)] have 4: "p3 + 11 * unat (ARCount h) \<le> p4" "p4 \<le> length data"
    by simp_all
  from 1 2 3 4 h(2) show ?thesis by simp
qed

text \<open>
  C7. The claim: a message whose header declares more entries than the bytes hold makes
  \<open>Parse\<close> return a failure. The code: the header of \<open>self_pointer_msg\<close> declares one
  question, two bytes follow (a question takes five at least), and \<open>Parse\<close> never returns.
  By the lemma above \<open>Parse\<close> never succeeds on such a buffer; it fails or, as here,
  does not return.
\<close>

theorem Parse_declared_question_never_returns: "Parse self_pointer_msg = None"
proof -
  have h: "parseHeader self_pointer_msg =
      Inr (\<lparr>ID = 0, Flags = 0, QDCount = 1, ANCount = 0, NSCount = 0, ARCount = 0\<rparr>, 12)"
    by (simp add: parseHeader_def self_pointer_msg_def slice_def Uint16_def)
  show ?thesis
    using parseName_pointer_cycle [OF self_pointer_closed, of 12]
    by (simp add: Parse_def h parseQuestion_def)
qed

section \<open>Label octets\<close>

text \<open>
  C4, counterexample. The claim: a label longer than 63 bytes and a length octet with the
  top bits 01 or 10 make \<open>parseName\<close> fail. The code: the octet \<open>0x40\<close> is read as a
  label of 64 bytes and the octet \<open>0x80\<close> as a label of 128 bytes, and both names parse.
\<close>

theorem parseName_accepts_long_and_reserved:
  "parseName long_label_name 0 = Some (Inr (replicate 64 (CHR ''a''), 66)) \<and>
   parseName reserved_bits_name 0 = Some (Inr (replicate 128 (CHR ''a''), 130))"
  by code_simp

text \<open>
  C4, as amended. At a nonzero length octet whose top two bits are not both set (the
  patterns 00, 01 and 10 alike, so a length from 1 to 191), \<open>parseName\<close> fails with
  "label extends past data" when the label extends past the buffer, and otherwise takes
  the label and goes on behind it.
\<close>

theorem parseName_loop_label_octet:
  assumes "pos < length data" "(data ! pos) AND 0xC0 \<noteq> 0xC0" "data ! pos \<noteq> 0"
  shows "parseName_loop data labels visited pos =
     (if length data < pos + 1 + unat (data ! pos) then Some (Inl LabelExtendsPastData)
      else parseName_loop data
             (labels @ [string_of_bytes (slice data (pos + 1) (pos + 1 + unat (data ! pos)))])
             visited (pos + 1 + unat (data ! pos)))"
  using assms by (subst parseName_loop.simps) (simp add: Let_def)

theorem parseName_loop_label_octet_witness:
  "parseName_loop [0x05, 0x61] [] [] 0 = Some (Inl LabelExtendsPastData) \<and>
   parseName_loop [0x45, 0x61] [] [] 0 = Some (Inl LabelExtendsPastData) \<and>
   parseName_loop [0x85, 0x61] [] [] 0 = Some (Inl LabelExtendsPastData)"
  using parseName_loop_label_octet [of 0 "[0x05, 0x61]" "[]" "[]"]
    parseName_loop_label_octet [of 0 "[0x45, 0x61]" "[]" "[]"]
    parseName_loop_label_octet [of 0 "[0x85, 0x61]" "[]" "[]"]
  by simp

section \<open>Zone selection\<close>




section \<open>Zone store\<close>








lemma lower_char_idem [simp]: "lower_char (lower_char c) = lower_char c"
  by (auto simp: lower_char_def Let_def)

lemma ToLower_idem [simp]: "ToLower (ToLower s) = ToLower s"
  by (simp add: ToLower_def)





lemma records_at_ToLower [simp]: "records_at rrs (ToLower N) t = records_at rrs N t"
  by (simp add: records_at_def)


section \<open>Zone-file loader\<close>























section \<open>Wire codec: names\<close>

text \<open>Integers and names written by the builder are read back by the parser.\<close>

lemma Uint16_PutUint16 [simp]: "Uint16 (PutUint16 v @ rest) = v"
  unfolding Uint16_def PutUint16_def
  by (rule bit_word_eqI) (auto simp: bit_simps)

lemma Uint32_PutUint32 [simp]: "Uint32 (PutUint32 v @ rest) = v"
  unfolding Uint32_def PutUint32_def
  apply (rule bit_word_eqI)
  subgoal for n
    apply (cases "n < 8"; cases "n < 16"; cases "n < 24")
    apply (auto simp: bit_simps)
    done
  done

lemma length_PutUint16 [simp]: "length (PutUint16 v) = 2"
  by (simp add: PutUint16_def)

lemma length_PutUint32 [simp]: "length (PutUint32 v) = 4"
  by (simp add: PutUint32_def)

lemma unat_of_char [simp]: "unat (of_char c :: byte) = of_char c"

proof -
  have "(of_char c :: byte) = of_nat (of_char c)" by (simp only: of_nat_of_char)
  also have "unat \<dots> = of_char c"
    by (simp only: unat_of_nat) simp
  finally show ?thesis .

qed

lemma string_of_bytes_of_string [simp]: "string_of_bytes (bytes_of_string s) = s"
  by (induction s) (simp_all add: string_of_bytes_def bytes_of_string_def)

lemma length_bytes_of_string [simp]: "length (bytes_of_string s) = length s"
  by (simp add: bytes_of_string_def)

lemma fold_append_concat: "fold (\<lambda>x acc. acc @ f x) xs init = init @ concat (map f xs)"
  by (induction xs arbitrary: init) simp_all

lemma Split_nonempty [simp]: "Split s c \<noteq> []"
  by (induction s) (simp_all add: Let_def)

lemma Join_Split: "Join (Split s c) [c] = s"

proof (induction s)
  case Nil
  show ?case by simp

next
  case (Cons a s)
  obtain l ls where r: "Split s c = l # ls" by (cases "Split s c") simp_all
  show ?case
  proof (cases "a = c")
    case True
    with Cons r show ?thesis by simp
  next
    case False
    with Cons r show ?thesis by (cases ls) (simp_all add: Let_def)
  qed

qed

lemma Join_snoc: "ls \<noteq> [] \<Longrightarrow> Join (ls @ [l]) sep = Join ls sep @ sep @ l"
  by (induction ls sep rule: Join.induct) simp_all

lemma label_octet: "n \<le> 63 \<Longrightarrow> (of_nat n :: byte) AND 0xC0 \<noteq> 0xC0"

proof
  assume n: "n \<le> 63" and e: "(of_nat n :: byte) AND 0xC0 = 0xC0"
  have "(of_nat n :: byte) AND 0xC0 \<le> of_nat n" by (rule word_and_le2)
  with e have "(0xC0 :: byte) \<le> of_nat n" by simp
  then have "unat (0xC0 :: byte) \<le> unat (of_nat n :: byte)" by (simp add: word_le_nat_alt)
  with n show False by (simp add: unat_of_nat)

qed

lemma label_octet_unat: "n \<le> 63 \<Longrightarrow> unat (of_nat n :: byte) = n"
  by (simp add: unat_of_nat)

lemma label_octet_nonzero: "1 \<le> n \<Longrightarrow> n \<le> 63 \<Longrightarrow> (of_nat n :: byte) \<noteq> 0"
  by (metis label_octet_unat not_one_le_zero unat_0)

lemma encodeLabel_wf: "wf_label l \<Longrightarrow> encodeLabel l = of_nat (length l) # bytes_of_string l"
  by (simp add: encodeLabel_def wf_label_def)

lemma parseName_loop_labels:
  assumes "list_all wf_label ls"
  shows "parseName_loop (pre @ concat (map encodeLabel ls) @ 0 # post) acc [] (length pre) =
     Some (Inr (Join (acc @ ls) ''.'', length pre + length (concat (map encodeLabel ls)) + 1))"
  using assms

proof (induction ls arbitrary: pre acc)
  case Nil
  show ?case by (subst parseName_loop.simps) simp

next
  case (Cons l ls)
  define data where "data = pre @ concat (map encodeLabel (l # ls)) @ 0 # post"
  from Cons.prems have wf: "wf_label l" and wfs: "list_all wf_label ls" by simp_all
  then have len: "1 \<le> length l" "length l \<le> 63" by (simp_all add: wf_label_def)
  have enc: "encodeLabel l = of_nat (length l) # bytes_of_string l"
    by (rule encodeLabel_wf [OF wf])
  have at: "data ! length pre = of_nat (length l)" by (simp add: data_def enc)
  have sl: "slice data (length pre + 1) (length pre + 1 + length l) = bytes_of_string l"
    by (simp add: data_def enc slice_def)
  have ld: "\<not> length data \<le> length pre" "\<not> length data < length pre + 1 + length l"
    by (simp_all add: data_def enc)
  have re: "data = (pre @ encodeLabel l) @ concat (map encodeLabel ls) @ 0 # post"
    by (simp add: data_def)
  have "parseName_loop data acc [] (length pre) =
      parseName_loop data (acc @ [l]) [] (length pre + 1 + length l)"
    by (subst parseName_loop.simps)
      (simp only: at sl ld label_octet [OF len(2)] label_octet_unat [OF len(2)]
        label_octet_nonzero [OF len] Let_def if_False if_True
        string_of_bytes_of_string)
  also have "\<dots> = parseName_loop ((pre @ encodeLabel l) @ concat (map encodeLabel ls) @ 0 # post)
      (acc @ [l]) [] (length (pre @ encodeLabel l))"
    by (simp add: enc data_def)
  also have "\<dots> = Some (Inr (Join ((acc @ [l]) @ ls) ''.'',
      length (pre @ encodeLabel l) + length (concat (map encodeLabel ls)) + 1))"
    by (rule Cons.IH [OF wfs])
  finally show ?case by (simp add: enc data_def)

qed

lemma Split_append_sep: "Split (s @ c # t) c = Split s c @ Split t c"
  by (induction s) (simp_all add: Let_def)

lemma encodeName_wf:
  assumes "wf_name name"
  shows "encodeName name = concat (map encodeLabel (Split name (CHR ''.''))) @ [0]"

proof -
  from assms have ne: "name \<noteq> []" "name \<noteq> ''.''"
    by (auto simp: wf_name_def wf_label_def)
  have "\<not> HasSuffix name ''.''"
  proof
    assume "HasSuffix name ''.''"
    then obtain s where "name = s @ ''.''"
      by (metis HasSuffix_def append_take_drop_id)
    then have "[] \<in> set (Split name (CHR ''.''))"
      using Split_append_sep [of s "CHR ''.''" "[]"] by simp
    with assms show False by (auto simp: wf_name_def wf_label_def list_all_iff)
  qed
  then show ?thesis
    using ne by (simp add: encodeName_def TrimSuffix_def fold_append_concat Let_def)

qed

lemma parseName_encodeName:
  assumes "wf_name name"
  shows "parseName (pre @ encodeName name @ post) (length pre) =
     Some (Inr (name, length pre + length (encodeName name)))"

proof -
  from assms have "list_all wf_label (Split name (CHR ''.''))" by (simp add: wf_name_def)
  from parseName_loop_labels [OF this, of pre post "[]"] show ?thesis
    by (simp add: parseName_def encodeName_wf [OF assms] Join_Split)

qed

lemma parseName_at:
  assumes "wf_name name" "drop p data = encodeName name @ rest"
  shows "parseName data p = Some (Inr (name, p + length (encodeName name)))"

proof -
  have "encodeName name \<noteq> []" by (simp add: encodeName_wf [OF assms(1)])
  with assms(2) have "p \<le> length data" by (metis append_is_Nil_conv drop_all nat_le_linear)
  then have "length (take p data) = p" by simp
  moreover have "data = take p data @ encodeName name @ rest"
    using assms(2) by (metis append_take_drop_id)
  ultimately show ?thesis
    using parseName_encodeName [OF assms(1), of "take p data" rest] by simp

qed

section \<open>Wire codec: what the builder writes\<close>

lemma bdata_writeUint16 [simp]: "bdata (writeUint16 b v) = bdata b @ PutUint16 v"
  by (simp add: writeUint16_def)

lemma bdata_writeUint32 [simp]: "bdata (writeUint32 b v) = bdata b @ PutUint32 v"
  by (simp add: writeUint32_def)

lemma bdata_writeName [simp]: "bdata (writeName b n) = bdata b @ encodeName n"
  by (simp add: writeName_def)

lemma bdata_writeHeader [simp]: "bdata (writeHeader b h) = bdata b @ wireHeader h"
  by (simp add: writeHeader_def wireHeader_def Let_def)

lemma bdata_writeQuestion [simp]: "bdata (writeQuestion b q) = bdata b @ wireQuestion q"
  by (simp add: writeQuestion_def wireQuestion_def Let_def)

lemma bdata_writeResourceRecord [simp]:
  "bdata (writeResourceRecord b rr) = bdata b @ wireRR rr"
  by (simp add: writeResourceRecord_def wireRR_def Let_def)

lemma bdata_fold_writeQuestion:
  "bdata (fold (\<lambda>q b. writeQuestion b q) qs b) = bdata b @ concat (map wireQuestion qs)"
  by (induction qs arbitrary: b) simp_all

lemma bdata_fold_writeResourceRecord:
  "bdata (fold (\<lambda>rr b. writeResourceRecord b rr) rrs b) = bdata b @ concat (map wireRR rrs)"
  by (induction rrs arbitrary: b) simp_all

lemma BuildResponse_bytes:
  "fst (BuildResponse b query answers authority) =
     wireHeader (response_header query (length answers) (length authority)) @
     concat (map wireQuestion (Questions query)) @
     concat (map wireRR answers) @ concat (map wireRR authority)"
  by (simp add: BuildResponse_def Let_def bdata_fold_writeQuestion
      bdata_fold_writeResourceRecord response_header_def)

lemma length_wireHeader [simp]: "length (wireHeader h) = 12"
  by (simp add: wireHeader_def)

lemma Uint16_PutUint16_only [simp]: "Uint16 (PutUint16 v) = v"
  using Uint16_PutUint16 [of v "[]"] by simp

lemma parseHeader_wireHeader: "parseHeader (wireHeader h @ rest) = Inr (h, 12)"
  by (cases h) (simp add: parseHeader_def wireHeader_def slice_def)

lemma read16:
  "drop p data = PutUint16 v @ rest \<Longrightarrow> Uint16 (slice data p (p + 2)) = v"
  by (simp add: slice_def PutUint16_def Uint16_def) (rule bit_word_eqI, auto simp: bit_simps)

lemma read32:
  "drop p data = PutUint32 v @ rest \<Longrightarrow> Uint32 (slice data p (p + 4)) = v"
  using Uint32_PutUint32 [of v "[]"]
  by (simp add: slice_def PutUint32_def)

lemma drop_step: "drop p data = xs @ rest \<Longrightarrow> drop (p + length xs) data = rest"
  by (metis add.commute append_eq_conv_conj drop_drop)

lemma drop_length: "drop p data = xs \<Longrightarrow> p + length xs \<le> length data \<or> xs = []"
  by (metis add.commute drop_all drop_eq_Nil le_add_diff_inverse2 length_drop linorder_le_cases order_refl)

lemma Parse_example_query: "Parse example_query_bytes = Some (Inr example_query)"
  by code_simp

lemma parseQuestions_length:
  "parseQuestions data n i pos = Some (Inr (qs, p)) \<Longrightarrow> length qs = n"
  by (induction n arbitrary: i pos qs)
    (auto split: Option.bind_splits sum.splits prod.splits)

lemma Parse_questions_length:
  "Parse data = Some (Inr m) \<Longrightarrow> length (Questions m) = unat (QDCount (Header m))"
  by (auto simp: Parse_def split: sum.splits prod.splits Option.bind_splits
      dest: parseQuestions_length)

lemma response_header_decoded:
  "parseHeader (take 12 (fst (BuildResponse b query answers authority))) =
     Inr (response_header query (length answers) (length authority), 12)"
  using parseHeader_wireHeader [of _ "[]"]
  by (simp add: BuildResponse_bytes)

text \<open>
  C9, counterexample. The claim: the answer count of the header equals the length of the
  answer list, for every answer list. The code: the count is \<open>uint16(len(answers))\<close>, so
  for the parsed query of the tests and a list of 65536 answers the header carries the
  answer count 0.
\<close>

theorem BuildResponse_count_wraps:
  "Parse example_query_bytes = Some (Inr example_query) \<and>
   length (replicate 65536 zeroRR) = 65536 \<and>
   parseHeader (take 12 (fst (BuildResponse NewBuilder example_query (replicate 65536 zeroRR) []))) =
     Inr (\<lparr>ID = 0x1234, Flags = 0x8500, QDCount = 1, ANCount = 0, NSCount = 0, ARCount = 0\<rparr>, 12)"
  using Parse_example_query
  by (simp add: response_header_decoded response_header_def example_query_def Flag_defs)

text \<open>
  C9, as amended. For every parsed query and all lists of answer and authority records,
  the first 12 bytes of the output of \<open>BuildResponse\<close> decode to a header with the ID of
  the query, QR and AA set, RD set if and only if it is set in the query, RA and TC
  clear, opcode 0 (bits 11 to 14), the number of questions of the query, the lengths of
  the answer and authority lists modulo 65536, and the additional count 0.
\<close>

theorem BuildResponse_header:
  assumes "Parse data = Some (Inr query)"
  shows "\<exists>h. parseHeader (take 12 (fst (BuildResponse b query answers authority))) = Inr (h, 12) \<and>
     ID h = ID (Header query) \<and>
     Flags h AND FlagQR = FlagQR \<and>
     Flags h AND FlagAA = FlagAA \<and>
     ((Flags h AND FlagRD \<noteq> 0) = (Flags (Header query) AND FlagRD \<noteq> 0)) \<and>
     Flags h AND FlagRA = 0 \<and>
     Flags h AND FlagTC = 0 \<and>
     Flags h AND 0x7800 = 0 \<and>
     unat (QDCount h) = length (Questions query) \<and>
     unat (ANCount h) = length answers mod 65536 \<and>
     unat (NSCount h) = length authority mod 65536 \<and>
     ARCount h = 0"

proof -
  let ?h = "response_header query (length answers) (length authority)"
  have q: "unat (QDCount ?h) = length (Questions query)"
    using Parse_questions_length [OF assms]
    by (simp add: response_header_def)
  have c: "unat (ANCount ?h) = length answers mod 65536"
    "unat (NSCount ?h) = length authority mod 65536" "ARCount ?h = 0"
    by (simp_all add: response_header_def unat_of_nat)
  have f: "ID ?h = ID (Header query)"
    "Flags ?h AND FlagQR = FlagQR" "Flags ?h AND FlagAA = FlagAA"
    "(Flags ?h AND FlagRD \<noteq> 0) = (Flags (Header query) AND FlagRD \<noteq> 0)"
    "Flags ?h AND FlagRA = 0" "Flags ?h AND FlagTC = 0" "Flags ?h AND 0x7800 = 0"
    by (simp_all add: response_header_def Flag_defs)
  from response_header_decoded q c f show ?thesis by blast

qed

theorem BuildResponse_header_witness:
  "Parse example_query_bytes = Some (Inr example_query) \<and>
   (\<exists>h. parseHeader (take 12 (fst (BuildResponse NewBuilder example_query [mx_rr] []))) =
        Inr (h, 12) \<and>
      ID h = 0x1234 \<and> Flags h AND FlagQR = FlagQR \<and> Flags h AND FlagAA = FlagAA \<and>
      Flags h AND FlagRD \<noteq> 0 \<and> unat (QDCount h) = 1 \<and> unat (ANCount h) = 1 \<and>
      unat (NSCount h) = 0 \<and> ARCount h = 0)"
proof -
  have p: "Parse example_query_bytes = Some (Inr example_query)"
    by (rule Parse_example_query)
  from BuildResponse_header [OF p, of NewBuilder "[mx_rr]" "[]"] obtain h where
    h: "parseHeader (take 12 (fst (BuildResponse NewBuilder example_query [mx_rr] []))) =
        Inr (h, 12)"
      "ID h = ID (Header example_query)" "Flags h AND FlagQR = FlagQR"
      "Flags h AND FlagAA = FlagAA"
      "(Flags h AND FlagRD \<noteq> 0) = (Flags (Header example_query) AND FlagRD \<noteq> 0)"
      "unat (QDCount h) = length (Questions example_query)"
      "unat (ANCount h) = length [mx_rr] mod 65536"
      "unat (NSCount h) = length ([] :: ResourceRecord list) mod 65536" "ARCount h = 0"
    by blast
  from h(5) have rd: "Flags h AND FlagRD \<noteq> 0"
    by (simp add: example_query_def FlagRD_def)
  from h rd p show ?thesis
    by (intro conjI exI [of _ h]) (simp_all add: example_query_def)
qed

section \<open>Wire codec: parsing what the builder wrote\<close>

lemma drop_full: "drop p data = xs \<Longrightarrow> xs \<noteq> [] \<Longrightarrow> p + length xs = length data"
  by (metis add.commute drop_eq_Nil le_add_diff_inverse2 length_drop linorder_le_cases)

lemma read16_to:
  "drop p data = PutUint16 v @ rest \<Longrightarrow> q = p + 2 \<Longrightarrow> Uint16 (slice data p q) = v"
  using read16 by simp

lemma read32_to:
  "drop p data = PutUint32 v @ rest \<Longrightarrow> q = p + 4 \<Longrightarrow> Uint32 (slice data p q) = v"
  using read32 by simp

lemma parseQuestion_at:
  assumes "wf_name (QName q)" "drop p data = wireQuestion q @ rest"
  shows "parseQuestion data p = Some (Inr (q, p + length (wireQuestion q)))"

proof -
  define p1 where "p1 = p + length (encodeName (QName q))"
  from assms(2) have d0: "drop p data =
      encodeName (QName q) @ PutUint16 (QType q) @ PutUint16 (QClass q) @ rest"
    by (simp add: wireQuestion_def)
  from parseName_at [OF assms(1) d0] have n: "parseName data p = Some (Inr (QName q, p1))"
    by (simp add: p1_def)
  from drop_step [OF d0] have d1: "drop p1 data = PutUint16 (QType q) @ PutUint16 (QClass q) @ rest"
    by (simp add: p1_def)
  from drop_step [OF d1] have d2: "drop (p1 + 2) data = PutUint16 (QClass q) @ rest"
    by simp
  from drop_full [OF d1] have l: "\<not> length data < p1 + 4"
    by (simp add: PutUint16_def)
  have r1: "Uint16 (slice data p1 (p1 + 2)) = QType q"
    by (rule read16_to [OF d1]) simp
  have r2: "Uint16 (slice data (p1 + 2) (p1 + 4)) = QClass q"
    by (rule read16_to [OF d2]) simp
  have "parseQuestion data p = Some (Inr (q, p1 + 4))"
    by (cases q) (use n l r1 r2 in \<open>simp add: parseQuestion_def\<close>)
  then show ?thesis by (simp add: p1_def wireQuestion_def)

qed

lemma parseQuestions_at:
  assumes "list_all (\<lambda>q. wf_name (QName q)) qs"
    "drop p data = concat (map wireQuestion qs) @ rest"
  shows "parseQuestions data (length qs) i p =
     Some (Inr (qs, p + length (concat (map wireQuestion qs))))"
  using assms

proof (induction qs arbitrary: i p)
  case Nil
  show ?case by simp

next
  case (Cons q qs)
  from Cons.prems(2) have d: "drop p data = wireQuestion q @ concat (map wireQuestion qs) @ rest"
    by simp
  from Cons.prems(1) have w: "wf_name (QName q)" "list_all (\<lambda>q. wf_name (QName q)) qs"
    by simp_all
  from Cons.IH [OF w(2) drop_step [OF d]] parseQuestion_at [OF w(1) d]
  show ?case by (simp add: add.assoc)

qed

lemma encodeTXT_concat: "encodeTXT texts = concat (map encodeText texts)"
  by (simp add: encodeTXT_def fold_append_concat)

lemma parseTXT_loop_encode:
  assumes "list_all (\<lambda>t. length t \<le> 255) ts"
  shows "parseTXT_loop (pre @ concat (map encodeText ts)) acc (length pre) = acc @ ts"
  using assms

proof (induction ts arbitrary: pre acc)
  case Nil
  show ?case by (subst parseTXT_loop.simps) simp

next
  case (Cons t ts)
  define data where "data = pre @ concat (map encodeText (t # ts))"
  from Cons.prems have len: "length t \<le> 255" and rest: "list_all (\<lambda>t. length t \<le> 255) ts"
    by simp_all
  have enc: "encodeText t = of_nat (length t) # bytes_of_string t"
    using len by (simp add: encodeText_def)
  have u: "unat (of_nat (length t) :: byte) = length t"
    using len by (simp add: unat_of_nat)
  have at: "data ! length pre = of_nat (length t)" by (simp add: data_def enc)
  have sl: "slice data (length pre + 1) (length pre + 1 + length t) = bytes_of_string t"
    by (simp add: data_def enc slice_def)
  have ld: "length pre < length data" "\<not> length data < length pre + 1 + length t"
    by (simp_all add: data_def enc)
  have "parseTXT_loop data acc (length pre) =
      parseTXT_loop data (acc @ [t]) (length pre + 1 + length t)"
    by (subst parseTXT_loop.simps)
      (simp only: at sl ld u Let_def if_False if_True string_of_bytes_of_string)
  also have "\<dots> = parseTXT_loop ((pre @ encodeText t) @ concat (map encodeText ts)) (acc @ [t])
      (length (pre @ encodeText t))"
    by (simp add: enc data_def)
  also have "\<dots> = (acc @ [t]) @ ts"
    by (rule Cons.IH [OF rest])
  finally show ?case by (simp add: data_def)

qed

lemma parseTXT_encodeTXT:
  "list_all (\<lambda>t. length t \<le> 255) ts \<Longrightarrow> parseTXT (encodeTXT ts) = ts"
  using parseTXT_loop_encode [of ts "[]" "[]"]
  by (simp add: parseTXT_def encodeTXT_concat)

lemma length_To4: "To4 a \<noteq> [] \<Longrightarrow> length (To4 a) = 4"
  by (auto simp: To4_def split: if_splits)

lemma length_To16: "To16 a \<noteq> [] \<Longrightarrow> length (To16 a) = 16"
  by (auto simp: To16_def v4InV6Prefix_def split: if_splits)

lemma IPEqual_To4: "To4 a \<noteq> [] \<Longrightarrow> IPEqual (To4 a) a"
  by (auto simp: To4_def IPEqual_def split: if_splits)

lemma IPEqual_To16: "To16 a \<noteq> [] \<Longrightarrow> IPEqual (To16 a) a"
  by (auto simp: To16_def IPEqual_def v4InV6Prefix_def split: if_splits)

lemma parseTarget_at:
  "wf_name name \<Longrightarrow> drop p data = encodeName name @ rest \<Longrightarrow> parseTarget data p = Some name"
  by (simp add: parseTarget_def parseName_at)

lemma of_nat_ge_2: "2 \<le> n \<Longrightarrow> n < 65536 \<Longrightarrow> (2 :: uint16) \<le> of_nat n"
  by (simp add: word_le_nat_alt unat_of_nat)

lemma parseRData_at:
  assumes d: "drop p2 data = buildRData rr @ rest"
    and wf: "wf_payload rr" and l: "length (buildRData rr) < 65536"
  shows "\<exists>rr'. parseRData data p2 (wire_base rr) = Some rr' \<and> Type rr' = Type rr \<and>
     Name rr' = Name rr \<and> Class rr' = Class rr \<and> TTL rr' = TTL rr \<and> same_payload rr rr'"

proof -
  consider (A) "Type rr = TypeA" "To4 (Address rr) \<noteq> []"
    | (AAAA) "Type rr = TypeAAAA" "To16 (Address rr) \<noteq> []"
    | (name) "Type rr = TypeCNAME \<or> Type rr = TypeNS" "wf_name (Target rr)"
    | (MX) "Type rr = TypeMX" "wf_name (Target rr)"
    | (TXT) "Type rr = TypeTXT" "list_all (\<lambda>t. length t \<le> 255) (Text rr)"
    | (SOA) "Type rr = TypeSOA"
    using wf by (auto simp: wf_payload_def)
  then show ?thesis
  proof cases
    case A
    then have "buildRData rr = To4 (Address rr)" by (simp add: buildRData_def)
    with A length_To4 [OF A(2)] IPEqual_To4 [OF A(2)] show ?thesis
      by (simp add: parseRData_def wire_base_def same_payload_def zeroRR_def)
  next
    case AAAA
    then have "buildRData rr = To16 (Address rr)" by (simp add: buildRData_def Type_defs)
    with AAAA length_To16 [OF AAAA(2)] IPEqual_To16 [OF AAAA(2)] show ?thesis
      by (simp add: parseRData_def wire_base_def same_payload_def zeroRR_def Type_defs)
  next
    case name
    then have b: "buildRData rr = encodeName (Target rr)"
      by (auto simp: buildRData_def Type_defs)
    from parseTarget_at [OF name(2) d [unfolded b]] name(1) show ?thesis
      by (auto simp: parseRData_def wire_base_def same_payload_def zeroRR_def Type_defs)
  next
    case MX
    then have b: "buildRData rr = PutUint16 (Priority rr) @ encodeName (Target rr)"
      by (simp add: buildRData_def Type_defs)
    from d b have d': "drop p2 data = PutUint16 (Priority rr) @ encodeName (Target rr) @ rest"
      by simp
    from drop_step [OF d'] have "drop (p2 + 2) data = encodeName (Target rr) @ rest" by simp
    from parseTarget_at [OF MX(2) this] have t: "parseTarget data (p2 + 2) = Some (Target rr)" .
    have "2 \<le> length (buildRData rr)" by (simp add: b)
    from of_nat_ge_2 [OF this l] have "(2 :: uint16) \<le> of_nat (length (buildRData rr))" .
    with t MX(1) show ?thesis
      by (simp add: parseRData_def wire_base_def same_payload_def zeroRR_def Type_defs b
          slice_def PutUint16_def Uint16_PutUint16 [unfolded PutUint16_def, simplified])
  next
    case TXT
    then have b: "buildRData rr = encodeTXT (Text rr)"
      by (simp add: buildRData_def Type_defs)
    from parseTXT_encodeTXT [OF TXT(2)] TXT(1) show ?thesis
      by (simp add: parseRData_def wire_base_def same_payload_def zeroRR_def Type_defs b)
  next
    case SOA
    then show ?thesis
      by (simp add: parseRData_def wire_base_def same_payload_def zeroRR_def Type_defs)
  qed

qed

lemma drop_step_to:
  "drop p data = xs @ rest \<Longrightarrow> q = p + length xs \<Longrightarrow> drop q data = rest"
  using drop_step by simp

lemma parseResourceRecord_at:
  assumes "wf_name (Name rr)" "drop p data = wireRR rr @ rest" "length (buildRData rr) < 65536"
  shows "parseResourceRecord data p =
     Option.bind (parseRData data (p + length (encodeName (Name rr)) + 10) (wire_base rr))
       (\<lambda>rr'. Some (Inr (rr', p + length (wireRR rr))))"

proof -
  define p1 where "p1 = p + length (encodeName (Name rr))"
  define L where "L = length (buildRData rr)"
  from assms(2) have d0: "drop p data = encodeName (Name rr) @ PutUint16 (Type rr) @
      PutUint16 (Class rr) @ PutUint32 (TTL rr) @ PutUint16 (of_nat L) @ buildRData rr @ rest"
    by (simp add: wireRR_def L_def)
  from parseName_at [OF assms(1) d0] have n: "parseName data p = Some (Inr (Name rr, p1))"
    by (simp add: p1_def)
  from drop_step [OF d0] have d1: "drop p1 data = PutUint16 (Type rr) @
      PutUint16 (Class rr) @ PutUint32 (TTL rr) @ PutUint16 (of_nat L) @ buildRData rr @ rest"
    by (simp add: p1_def)
  have d2: "drop (p1 + 2) data =
      PutUint16 (Class rr) @ PutUint32 (TTL rr) @ PutUint16 (of_nat L) @ buildRData rr @ rest"
    by (rule drop_step_to [OF d1]) simp
  have d3: "drop (p1 + 4) data =
      PutUint32 (TTL rr) @ PutUint16 (of_nat L) @ buildRData rr @ rest"
    by (rule drop_step_to [OF d2]) simp
  have d4: "drop (p1 + 8) data = PutUint16 (of_nat L) @ buildRData rr @ rest"
    by (rule drop_step_to [OF d3]) simp
  have d5: "drop (p1 + 10) data = buildRData rr @ rest"
    by (rule drop_step_to [OF d4]) simp
  from drop_full [OF d1] have len: "length data = p1 + 10 + L + length rest"
    by (simp add: PutUint16_def L_def)
  have l1: "\<not> length data < p1 + 10" using len by simp
  have u: "unat (of_nat L :: uint16) = L"
    using assms(3) by (simp add: unat_of_nat L_def)
  have l2: "\<not> length data < p1 + 10 + L" using len by simp
  have r1: "Uint16 (slice data p1 (p1 + 2)) = Type rr"
    by (rule read16_to [OF d1]) simp
  have r2: "Uint16 (slice data (p1 + 2) (p1 + 4)) = Class rr"
    by (rule read16_to [OF d2]) simp
  have r3: "Uint32 (slice data (p1 + 4) (p1 + 8)) = TTL rr"
    by (rule read32_to [OF d3]) simp
  have r4: "Uint16 (slice data (p1 + 8) (p1 + 10)) = of_nat L"
    by (rule read16_to [OF d4]) simp
  have r5: "slice data (p1 + 10) (p1 + 10 + L) = buildRData rr"
    by (simp add: slice_def d5 L_def)
  have "parseResourceRecord data p =
      Option.bind (parseRData data (p1 + 10) (wire_base rr))
        (\<lambda>rr'. Some (Inr (rr', p1 + 10 + L)))"
    using n l1 l2 r1 r2 r3 r4 r5 u
    by (simp add: parseResourceRecord_def wire_base_def Let_def L_def)
  then show ?thesis
    by (simp add: p1_def L_def wireRR_def add.assoc)

qed

text \<open>
  C2, counterexample. The claim: an SOA record built into a response and parsed back has
  its SOA payload. The code: \<open>parseResourceRecord\<close> has no case for SOA, so the answer
  comes back with type SOA and no parsed SOA.
\<close>

theorem SOA_payload_not_parsed:
  "(case Parse (fst (BuildResponse NewBuilder example_query [soa_rr] [])) of
      Some (Inr msg) \<Rightarrow> map Type (Answers msg) = [TypeSOA] \<and> map SOAData (Answers msg) = [None]
    | _ \<Rightarrow> False) \<and>
   SOAData soa_rr = Some example_soa"
  by code_simp

text \<open>
  C2, as amended. For a record of type A, AAAA, CNAME, NS, MX or TXT with a payload that
  survives the wire, an owner name and question names that do so, and record data shorter
  than 65536 bytes: parsing the response built for the single record returns exactly one
  answer record, of the same type, name and TTL, whose payload equals the one built
  (\<open>net.IP.Equal\<close> for the addresses, string equality for targets, and the MX preference,
  list equality for TXT). An SOA record comes back with type SOA, its record data and no
  parsed SOA.
\<close>

theorem BuildResponse_Parse_roundtrip:
  assumes "list_all (\<lambda>q. wf_name (QName q)) (Questions query)"
    and "length (Questions query) < 65536"
    and "wf_name (Name rr)" and "wf_payload rr" and "length (buildRData rr) < 65536"
  shows "\<exists>msg rr'. Parse (fst (BuildResponse b query [rr] [])) = Some (Inr msg) \<and>
     ID (Header msg) = ID (Header query) \<and> Questions msg = Questions query \<and>
     Answers msg = [rr'] \<and> Type rr' = Type rr \<and> Name rr' = Name rr \<and> TTL rr' = TTL rr \<and>
     same_payload rr rr'"

proof -
  define h where "h = response_header query 1 0"
  define Q where "Q = concat (map wireQuestion (Questions query))"
  define data where "data = fst (BuildResponse b query [rr] [])"
  have data: "data = wireHeader h @ Q @ wireRR rr"
    by (simp add: data_def BuildResponse_bytes h_def Q_def)
  have ph: "parseHeader data = Inr (h, 12)"
    by (simp add: data parseHeader_wireHeader)
  have counts: "unat (QDCount h) = length (Questions query)" "unat (ANCount h) = 1"
    "unat (NSCount h) = 0" "unat (ARCount h) = 0" "ID h = ID (Header query)"
    using assms(2) by (simp_all add: h_def response_header_def unat_of_nat)
  have d12: "drop 12 data = Q @ wireRR rr @ []"
    by (simp add: data)
  from parseQuestions_at [OF assms(1) d12 [unfolded Q_def], of 0]
  have pq: "parseQuestions data (length (Questions query)) 0 12 =
      Some (Inr (Questions query, 12 + length Q))"
    by (simp add: Q_def)
  have dq: "drop (12 + length Q) data = wireRR rr @ []"
    by (simp add: data)
  have dr: "drop (12 + length Q + length (encodeName (Name rr)) + 10) data = buildRData rr @ []"
    by (simp add: data wireRR_def)
  from parseRData_at [OF dr assms(4,5)] obtain rr' where
    rr': "parseRData data (12 + length Q + length (encodeName (Name rr)) + 10) (wire_base rr) =
        Some rr'"
      "Type rr' = Type rr" "Name rr' = Name rr" "TTL rr' = TTL rr" "same_payload rr rr'"
    by blast
  from parseResourceRecord_at [OF assms(3) dq assms(5)] rr'(1)
  have pr: "parseResourceRecord data (12 + length Q) =
      Some (Inr (rr', 12 + length Q + length (wireRR rr)))"
    by simp
  have "Parse data = Some (Inr \<lparr>Header = h, Questions = Questions query, Answers = [rr'],
      Authority = [], Additional = []\<rparr>)"
    by (simp add: Parse_def ph counts pq pr)
  with rr'(2-) counts(5) show ?thesis
    unfolding data_def by simp

qed

theorem BuildResponse_Parse_roundtrip_witness:
  "list_all (\<lambda>q. wf_name (QName q)) (Questions example_query) \<and>
   length (Questions example_query) < 65536 \<and>
   wf_name (Name mx_rr) \<and> wf_payload mx_rr \<and> length (buildRData mx_rr) < 65536 \<and>
   (\<exists>msg rr'. Parse (fst (BuildResponse NewBuilder example_query [mx_rr] [])) = Some (Inr msg) \<and>
      Answers msg = [rr'] \<and> Type rr' = TypeMX \<and> Priority rr' = 10 \<and>
      Target rr' = ''mail.example.com'')"
proof -
  have a: "list_all (\<lambda>q. wf_name (QName q)) (Questions example_query)"
    by code_simp
  have b: "length (Questions example_query) < 65536"
    by (simp add: example_query_def)
  have c: "wf_name (Name mx_rr)"
    by code_simp
  have d: "wf_payload mx_rr"
    by code_simp
  have e: "length (buildRData mx_rr) = 20"
    by code_simp
  then have e': "length (buildRData mx_rr) < 65536" by simp
  have t: "Type mx_rr = TypeMX" "Priority mx_rr = 10" "Target mx_rr = ''mail.example.com''"
    by (simp_all add: mx_rr_def zeroRR_def)
  from BuildResponse_Parse_roundtrip [OF a b c d e', of NewBuilder] obtain msg rr' where
    r: "Parse (fst (BuildResponse NewBuilder example_query [mx_rr] [])) = Some (Inr msg)"
      "Answers msg = [rr']" "Type rr' = Type mx_rr" "same_payload mx_rr rr'"
    by blast
  from r(3,4) t have "Type rr' = TypeMX \<and> Priority rr' = 10 \<and> Target rr' = ''mail.example.com''"
    by (simp add: same_payload_def Type_defs)
  with r(1,2) a b c d e' show ?thesis by blast
qed

end
